theory Spec2Isabelle
  imports Main "HOL-Library.AList"
begin

section \<open>Go primitives used by the sources\<close>

text \<open>
  Byte strings (\<open>[]byte\<close>, \<open>string\<close>) are lists of 8-bit characters. An index or slice
  expression that is out of range panics in Go; the helpers below return \<open>None\<close> there,
  and every caller propagates it.
\<close>

abbreviation CR :: char where "CR \<equiv> CHR 0x0D"
abbreviation LF :: char where "LF \<equiv> CHR 0x0A"

definition index :: "'a list \<Rightarrow> int \<Rightarrow> 'a option" where
  "index xs i = (if 0 \<le> i \<and> i < int (length xs) then Some (xs ! nat i) else None)"

definition slice :: "'a list \<Rightarrow> int \<Rightarrow> int \<Rightarrow> 'a list option" where
  "slice xs lo hi =
     (if 0 \<le> lo \<and> lo \<le> hi \<and> hi \<le> int (length xs)
      then Some (take (nat (hi - lo)) (drop (nat lo) xs)) else None)"

text \<open>\<open>int64\<close> arithmetic wraps around.\<close>

definition wrap64 :: "int \<Rightarrow> int" where
  "wrap64 x = (x + 2 ^ 63) mod 2 ^ 64 - 2 ^ 63"

datatype error = EOF | ErrUnexpectedEOF | New string

text \<open>
  \<open>bufio.Reader.ReadBytes(delim)\<close> on a finite input followed by end of stream: the bytes
  up to and including the first delimiter, or everything read and \<open>io.EOF\<close>.
\<close>

fun ReadBytes :: "char \<Rightarrow> string \<Rightarrow> (string \<times> error option) \<times> string" where
  "ReadBytes delim [] = (([], Some EOF), [])"
| "ReadBytes delim (c # cs) =
     (if c = delim then (([c], None), cs)
      else (case ReadBytes delim cs of ((line, err), rest) \<Rightarrow> ((c # line, err), rest)))"

text \<open>
  \<open>io.ReadFull\<close> into a buffer of \<open>n\<close> bytes: exactly \<open>n\<close> bytes, \<open>io.EOF\<close> when
  nothing could be read, \<open>io.ErrUnexpectedEOF\<close> when the stream ends too early.
\<close>

definition ReadFull :: "nat \<Rightarrow> string \<Rightarrow> (string \<times> error option) \<times> string" where
  "ReadFull n input =
     (if n \<le> length input then ((take n input, None), drop n input)
      else if input = [] then (([], Some EOF), [])
      else ((input, Some ErrUnexpectedEOF), []))"

text \<open>
  \<open>strconv.ParseUint(s, 10, bitSize)\<close> and \<open>strconv.ParseInt(s, 10, bitSize)\<close>: the value
  and, on failure, the error. The digits are read left to right and the first problem
  decides: a byte that is no decimal digit is a syntax error (value 0), a value past the
  range is a range error (value clamped).
\<close>

datatype NumError = ErrSyntax | ErrRange

definition isDigit :: "char \<Rightarrow> bool" where
  "isDigit c = (48 \<le> (of_char c :: nat) \<and> (of_char c :: nat) \<le> 57)"

definition digitVal :: "char \<Rightarrow> nat" where
  "digitVal c = of_char c - 48"

fun parseDigits :: "nat \<Rightarrow> nat \<Rightarrow> string \<Rightarrow> nat \<times> NumError option" where
  "parseDigits maxVal n [] = (n, None)"
| "parseDigits maxVal n (c # cs) =
     (if \<not> isDigit c then (0, Some ErrSyntax)
      else if n * 10 + digitVal c > maxVal then (maxVal, Some ErrRange)
      else parseDigits maxVal (n * 10 + digitVal c) cs)"

definition ParseUint :: "string \<Rightarrow> nat \<Rightarrow> nat \<times> NumError option" where
  "ParseUint s bitSize =
     (if s = [] then (0, Some ErrSyntax) else parseDigits (2 ^ bitSize - 1) 0 s)"

definition ParseInt :: "string \<Rightarrow> nat \<Rightarrow> int \<times> NumError option" where
  "ParseInt s0 bitSize =
     (case s0 of
        [] \<Rightarrow> (0, Some ErrSyntax)
      | c # cs \<Rightarrow>
          (let neg = (c = CHR ''-'');
               s = (if c = CHR ''+'' \<or> c = CHR ''-'' then cs else s0);
               cutoff = (2 :: nat) ^ (bitSize - 1)
           in case ParseUint s bitSize of
                (un, Some ErrSyntax) \<Rightarrow> (0, Some ErrSyntax)
              | (un, _) \<Rightarrow>
                  if \<not> neg \<and> un \<ge> cutoff then (int cutoff - 1, Some ErrRange)
                  else if neg \<and> un > cutoff then (- int cutoff, Some ErrRange)
                  else (if neg then - int un else int un, None)))"

text \<open>\<open>strconv.FormatInt(n, 10)\<close> and \<open>strconv.Itoa\<close>: the decimal digits, \<open>-\<close> first when negative.\<close>

definition digitChar :: "nat \<Rightarrow> char" where
  "digitChar d = ''0123456789'' ! d"

fun FormatUint :: "nat \<Rightarrow> string" where
  "FormatUint n =
     (if n < 10 then [digitChar n] else FormatUint (n div 10) @ [digitChar (n mod 10)])"

declare FormatUint.simps [simp del]

definition FormatInt :: "int \<Rightarrow> string" where
  "FormatInt n = (if n < 0 then CHR ''-'' # FormatUint (nat (- n)) else FormatUint (nat n))"

text \<open>\<open>strings.TrimSuffix\<close> and \<open>strings.Split\<close> on a one-byte separator.\<close>

definition TrimSuffix :: "string \<Rightarrow> string \<Rightarrow> string" where
  "TrimSuffix s suffix =
     (if length suffix \<le> length s \<and> drop (length s - length suffix) s = suffix
      then take (length s - length suffix) s else s)"

fun Split :: "string \<Rightarrow> char \<Rightarrow> string list" where
  "Split [] sep = [[]]"
| "Split (c # cs) sep =
     (if c = sep then [] # Split cs sep
      else (case Split cs sep of [] \<Rightarrow> [[c]] | w # ws \<Rightarrow> (c # w) # ws))"

section \<open>RESP codec: \<open>redis/parser/parser.go\<close>\<close>

text \<open>
  The reply values the parser and the executors build (package \<open>protocol\<close>; the
  taxonomy is that of section 4.1 of the spec): \<open>MakeStatusReply\<close>, \<open>MakeErrReply\<close>,
  \<open>MakeIntReply\<close>, \<open>MakeBulkReply\<close> and \<open>MakeMultiBulkReply\<close> build the constructor of
  the same name; \<open>NullBulkReply\<close>, \<open>EmptyMultiBulkReply\<close> and \<open>OkReply\<close> are the
  constants.
\<close>

datatype Reply =
    StatusReply string
  | StandardErrReply string
  | IntReply int
  | BulkReply string
  | NullBulkReply
  | MultiBulkReply "string list"
  | EmptyMultiBulkReply
  | OkReply

datatype Payload = Payload (Data: "Reply option") (Err: "error option")

record readState =
  readingMultiLine :: bool
  expectedArgsCount :: int
  msgType :: char
  args :: "string list"
  bulkLen :: int

text \<open>The zero value \<open>readState{}\<close>.\<close>

definition emptyState :: readState where
  "emptyState =
     \<lparr>readingMultiLine = False, expectedArgsCount = 0, msgType = CHR 0x00, args = [],
      bulkLen = 0\<rparr>"

definition finished :: "readState \<Rightarrow> bool" where
  "finished s = (expectedArgsCount s > 0 \<and> int (length (args s)) = expectedArgsCount s)"

definition protocolError :: "string \<Rightarrow> error" where
  "protocolError msg = New (''protocol error: '' @ msg)"

text \<open>
  \<open>readLine\<close> returns Go's triple \<open>(msg, ioErr, err)\<close>, the unread input and the state
  (\<open>bulkLen\<close> is reset after a bulk read). \<open>None\<close> is a panic: the index
  \<open>msg[len(msg)-2]\<close> out of range, or \<open>make\<close> called with a negative length. A
  buffer of any other length is taken to be allocated; memory is not bounded here.
\<close>

definition readLine ::
  "string \<Rightarrow> readState \<Rightarrow> (string \<times> bool \<times> error option) option \<times> string \<times> readState" where
  "readLine input state =
     (if bulkLen state = 0 then
        (case ReadBytes LF input of
           ((msg, Some err), rest) \<Rightarrow> (Some ([], True, Some err), rest, state)
         | ((msg, None), rest) \<Rightarrow>
             if length msg = 0 then (Some ([], False, Some (protocolError msg)), rest, state)
             else (case index msg (int (length msg) - 2) of
                     None \<Rightarrow> (None, rest, state)
                   | Some c \<Rightarrow>
                       if c \<noteq> CR then (Some ([], False, Some (protocolError msg)), rest, state)
                       else (Some (msg, False, None), rest, state)))
      else
        (let n = wrap64 (bulkLen state + 2) in
         if n < 0 then (None, input, state)
         else
           (case ReadFull (nat n) input of
              ((msg, Some err), rest) \<Rightarrow> (Some ([], True, Some err), rest, state)
            | ((msg, None), rest) \<Rightarrow>
                if length msg = 0 then (Some ([], False, Some (protocolError msg)), rest, state)
                else (case index msg (int (length msg) - 2) of
                        None \<Rightarrow> (None, rest, state)
                      | Some c \<Rightarrow>
                          if c \<noteq> CR then
                            (Some ([], False, Some (protocolError msg)), rest, state)
                          else (case index msg (int (length msg) - 1) of
                                  None \<Rightarrow> (None, rest, state)
                                | Some d \<Rightarrow>
                                    if d \<noteq> LF then
                                      (Some ([], False, Some (protocolError msg)), rest, state)
                                    else (Some (msg, False, None), rest,
                                          state\<lparr>bulkLen := 0\<rparr>))))))"

text \<open>
  The header parsers return the error (if any) and the updated state; \<open>None\<close> is a panic
  of an index or slice expression.
\<close>

definition parseMultiBulkHeader :: "string \<Rightarrow> readState \<Rightarrow> (error option \<times> readState) option" where
  "parseMultiBulkHeader msg state =
     (case slice msg 1 (int (length msg) - 2) of
        None \<Rightarrow> None
      | Some digits \<Rightarrow>
          (case ParseUint digits 32 of
             (expectedLine, Some e) \<Rightarrow> Some (Some (protocolError msg), state)
           | (expectedLine, None) \<Rightarrow>
               if expectedLine = 0 then Some (None, state\<lparr>expectedArgsCount := 0\<rparr>)
               else if expectedLine > 0 then
                 (case index msg 0 of
                    None \<Rightarrow> None
                  | Some t \<Rightarrow>
                      Some (None, state\<lparr>msgType := t, readingMultiLine := True,
                                         expectedArgsCount := int expectedLine, args := []\<rparr>))
               else Some (Some (protocolError msg), state)))"

definition parseBulkHeader :: "string \<Rightarrow> readState \<Rightarrow> (error option \<times> readState) option" where
  "parseBulkHeader msg state =
     (case slice msg 1 (int (length msg) - 2) of
        None \<Rightarrow> None
      | Some digits \<Rightarrow>
          (case ParseInt digits 64 of
             (n, Some e) \<Rightarrow> Some (Some (protocolError msg), state\<lparr>bulkLen := n\<rparr>)
           | (n, None) \<Rightarrow>
               if n = - 1 then Some (None, state\<lparr>bulkLen := n\<rparr>)
               else if n > 0 then
                 (case index msg 0 of
                    None \<Rightarrow> None
                  | Some t \<Rightarrow>
                      Some (None, state\<lparr>bulkLen := n, msgType := t, readingMultiLine := True,
                                         expectedArgsCount := 1, args := []\<rparr>))
               else Some (Some (protocolError msg), state\<lparr>bulkLen := n\<rparr>)))"

definition parseSingleLineReply :: "string \<Rightarrow> (Reply option \<times> error option) option" where
  "parseSingleLineReply msg =
     (let str = TrimSuffix msg [CR, LF] in
      case index msg 0 of
        None \<Rightarrow> None
      | Some t \<Rightarrow>
          if t = CHR ''+'' then
            (case slice str 1 (int (length str)) of
               None \<Rightarrow> None
             | Some body \<Rightarrow> Some (Some (StatusReply body), None))
          else if t = CHR ''-'' then
            (case slice str 1 (int (length str)) of
               None \<Rightarrow> None
             | Some body \<Rightarrow> Some (Some (StandardErrReply body), None))
          else if t = CHR '':'' then
            (case slice str 1 (int (length str)) of
               None \<Rightarrow> None
             | Some body \<Rightarrow>
                 (case ParseInt body 64 of
                    (val, Some e) \<Rightarrow> Some (None, Some (protocolError msg))
                  | (val, None) \<Rightarrow> Some (Some (IntReply val), None)))
          else Some (Some (MultiBulkReply (Split str (CHR '' ''))), None))"

definition readBody :: "string \<Rightarrow> readState \<Rightarrow> (error option \<times> readState) option" where
  "readBody msg state =
     (case slice msg 0 (int (length msg) - 2) of
        None \<Rightarrow> None
      | Some line \<Rightarrow>
          (case index line 0 of
             None \<Rightarrow> None
           | Some t \<Rightarrow>
               if t = CHR ''$'' then
                 (case slice line 1 (int (length line)) of
                    None \<Rightarrow> None
                  | Some digits \<Rightarrow>
                      (case ParseInt digits 64 of
                         (n, Some e) \<Rightarrow> Some (Some (protocolError msg), state\<lparr>bulkLen := n\<rparr>)
                       | (n, None) \<Rightarrow>
                           if n \<le> 0 then
                             Some (None, state\<lparr>args := args state @ [[]], bulkLen := 0\<rparr>)
                           else Some (None, state\<lparr>bulkLen := n\<rparr>)))
               else Some (None, state\<lparr>args := args state @ [line]\<rparr>)))"

text \<open>
  One iteration of the \<open>for\<close> loop of \<open>parse0\<close>: the payloads it sends on the channel,
  how the loop goes on, and the unread input. \<open>Return\<close> is the \<open>close(ch); return\<close> after
  an I/O error; \<open>Panic\<close> is a run-time panic, which the deferred \<open>recover\<close> logs: the
  goroutine ends and the channel is never closed.
\<close>

datatype control = Continue readState | Return | Panic

definition parse0_body :: "readState \<Rightarrow> string \<Rightarrow> Payload list \<times> control \<times> string" where
  "parse0_body state0 input =
     (case readLine input state0 of
        (None, rest, state) \<Rightarrow> ([], Panic, rest)
      | (Some (msg, ioErr, Some err), rest, state) \<Rightarrow>
          if ioErr then ([Payload None (Some err)], Return, rest)
          else ([Payload None (Some err)], Continue emptyState, rest)
      | (Some (msg, ioErr, None), rest, state) \<Rightarrow>
          if \<not> readingMultiLine state then
            (case index msg 0 of
               None \<Rightarrow> ([], Panic, rest)
             | Some t \<Rightarrow>
                 if t = CHR ''*'' then
                   (case parseMultiBulkHeader msg state of
                      None \<Rightarrow> ([], Panic, rest)
                    | Some (Some e, state') \<Rightarrow>
                        ([Payload None (Some (protocolError msg))], Continue emptyState, rest)
                    | Some (None, state') \<Rightarrow>
                        if expectedArgsCount state' = 0 then
                          ([Payload (Some EmptyMultiBulkReply) None], Continue emptyState, rest)
                        else ([], Continue state', rest))
                 else if t = CHR ''$'' then
                   (case parseBulkHeader msg state of
                      None \<Rightarrow> ([], Panic, rest)
                    | Some (Some e, state') \<Rightarrow>
                        ([Payload None (Some (protocolError msg))], Continue emptyState, rest)
                    | Some (None, state') \<Rightarrow>
                        if bulkLen state' = - 1 then
                          ([Payload (Some NullBulkReply) None], Continue emptyState, rest)
                        else ([], Continue state', rest))
                 else
                   (case parseSingleLineReply msg of
                      None \<Rightarrow> ([], Panic, rest)
                    | Some (result, err) \<Rightarrow> ([Payload result err], Continue emptyState, rest)))
          else
            (case readBody msg state of
               None \<Rightarrow> ([], Panic, rest)
             | Some (Some e, state') \<Rightarrow>
                 ([Payload None (Some (protocolError msg))], Continue emptyState, rest)
             | Some (None, state') \<Rightarrow>
                 if finished state' then
                   (if msgType state' = CHR ''*'' then
                      ([Payload (Some (MultiBulkReply (args state'))) None],
                       Continue emptyState, rest)
                    else if msgType state' = CHR ''$'' then
                      (case index (args state') 0 of
                         None \<Rightarrow> ([], Panic, rest)
                       | Some a \<Rightarrow>
                           ([Payload (Some (BulkReply a)) None], Continue emptyState, rest))
                    else ([Payload None None], Continue emptyState, rest))
                 else ([], Continue state', rest)))"

text \<open>
  The loop of \<open>parse0\<close> over a finite input: everything sent on the channel, and how
  the goroutine ended (\<open>Closed\<close>: the channel was closed after an I/O error;
  \<open>Recovered\<close>: a panic was recovered and the channel was left open).
\<close>

datatype ending = Closed | Recovered

lemma ReadBytes_shorter:
  "ReadBytes delim input = ((msg, None), rest) \<Longrightarrow> length rest < length input"
  by (induction input arbitrary: msg rest) (auto split: if_splits prod.splits)

lemma readLine_progress:
  assumes "readLine input state = (Some (msg, ioErr, err), rest, state')"
  shows "(ioErr \<and> err \<noteq> None) \<or> length rest < length input
           \<or> (rest = input \<and> bulkLen state \<noteq> 0 \<and> err \<noteq> None)"
proof (cases "bulkLen state = 0")
  case True
  with assms show ?thesis
    by (auto simp: readLine_def split: prod.splits option.splits if_splits
        dest: ReadBytes_shorter)
next
  case False
  with assms show ?thesis
    by (auto simp: readLine_def ReadFull_def Let_def split: prod.splits option.splits if_splits)
qed

lemma parse0_body_progress:
  assumes "parse0_body state input = (out, Continue state', rest)"
  shows "length rest < length input
           \<or> (rest = input \<and> bulkLen state \<noteq> 0 \<and> bulkLen state' = 0)"
proof -
  obtain r rest0 st0 where rl: "readLine input state = (r, rest0, st0)"
    by (cases "readLine input state") auto
  show ?thesis
  proof (cases r)
    case None
    with assms rl show ?thesis by (simp add: parse0_body_def)
  next
    case (Some t)
    obtain msg ioErr err where t: "t = (msg, ioErr, err)" by (cases t) auto
    from assms rl Some t have rest: "rest = rest0"
      by (simp add: parse0_body_def split: option.splits if_splits prod.splits)
    from rl Some t have p: "(ioErr \<and> err \<noteq> None) \<or> length rest0 < length input
        \<or> (rest0 = input \<and> bulkLen state \<noteq> 0 \<and> err \<noteq> None)"
      using readLine_progress [of input state msg ioErr err rest0 st0] by simp
    show ?thesis
    proof (cases err)
      case None
      with p rest show ?thesis by simp
    next
      case (Some e)
      with assms rl \<open>r = Some t\<close> t have "\<not> ioErr \<and> state' = emptyState"
        by (simp add: parse0_body_def split: if_splits)
      with p rest show ?thesis by (auto simp: emptyState_def)
    qed
  qed
qed

function parse0_loop :: "readState \<Rightarrow> string \<Rightarrow> Payload list \<times> ending" where
  "parse0_loop state input =
     (case parse0_body state input of
        (out, Return, rest) \<Rightarrow> (out, Closed)
      | (out, Panic, rest) \<Rightarrow> (out, Recovered)
      | (out, Continue state', rest) \<Rightarrow>
          (case parse0_loop state' rest of (sent, e) \<Rightarrow> (out @ sent, e)))"
  by pat_completeness auto
termination
proof (relation "measure (\<lambda>(state, input). 2 * length input + (if bulkLen state = 0 then 0 else 1))")
  show "wf (measure (\<lambda>(state, input). 2 * length input + (if bulkLen state = 0 then 0 else 1)))"
    by simp
next
  fix state input out y c rest state'
  assume "(out, y) = parse0_body state input" "(c, rest) = y" "c = Continue state'"
  then have "parse0_body state input = (out, Continue state', rest)" by simp
  from parse0_body_progress [OF this]
  show "((state', rest), (state, input))
          \<in> measure (\<lambda>(state, input). 2 * length input + (if bulkLen state = 0 then 0 else 1))"
    by auto
qed

declare parse0_loop.simps [simp del]

definition parse0 :: "string \<Rightarrow> Payload list \<times> ending" where
  "parse0 reader = parse0_loop emptyState reader"

text \<open>
  \<open>ParseBytes\<close> drains the channel. \<open>None\<close>: the call never returns, because the
  goroutine ended without closing the channel.
\<close>

fun drain :: "Payload list \<Rightarrow> ending \<Rightarrow> Reply option list \<Rightarrow> (Reply option list \<times> error option) option" where
  "drain [] Closed results = Some (results, None)"
| "drain [] Recovered results = None"
| "drain (Payload d (Some e) # ps) en results =
     (if e = EOF then Some (results, None) else Some ([], Some e))"
| "drain (Payload d None # ps) en results = drain ps en (results @ [d])"

definition ParseBytes :: "string \<Rightarrow> (Reply option list \<times> error option) option" where
  "ParseBytes data = (case parse0 data of (ps, en) \<Rightarrow> drain ps en [])"

text \<open>\<open>ParseOne\<close> takes the first payload of the channel.\<close>

definition ParseOne :: "string \<Rightarrow> (Reply option \<times> error option) option" where
  "ParseOne data =
     (case parse0 data of
        ([], Closed) \<Rightarrow> Some (None, Some (New ''no protocol''))
      | ([], Recovered) \<Rightarrow> None
      | (Payload d e # ps, en) \<Rightarrow> Some (d, e))"

text \<open>
  Modelled from the spec: the writer of package \<open>protocol\<close>, whose source is not among
  the files at hand, as section 4.1 gives the wire form of each reply: \<open>+s\<close>, \<open>-s\<close>, \<open>:n\<close>, \<open>$len\<close> and the
  payload, \<open>$-1\<close> for the null bulk, \<open>*N\<close> and each item as a bulk, every line ended by
  CRLF; \<open>+OK\<close> and \<open>*0\<close> for the two constants.
\<close>

definition bulkBytes :: "string \<Rightarrow> string" where
  "bulkBytes b = CHR ''$'' # FormatInt (int (length b)) @ [CR, LF] @ b @ [CR, LF]"

fun ToBytes :: "Reply \<Rightarrow> string" where
  "ToBytes (StatusReply s) = CHR ''+'' # s @ [CR, LF]"
| "ToBytes (StandardErrReply s) = CHR ''-'' # s @ [CR, LF]"
| "ToBytes (IntReply n) = CHR '':'' # FormatInt n @ [CR, LF]"
| "ToBytes (BulkReply b) = bulkBytes b"
| "ToBytes NullBulkReply = ''$-1'' @ [CR, LF]"
| "ToBytes (MultiBulkReply items) =
     CHR ''*'' # FormatInt (int (length items)) @ [CR, LF] @ concat (map bulkBytes items)"
| "ToBytes EmptyMultiBulkReply = ''*0'' @ [CR, LF]"
| "ToBytes OkReply = ''+OK'' @ [CR, LF]"

text \<open>
  The replies whose wire form the parser reads back. A payload is plain when it is not
  empty, does not start with \<open>$\<close> and its length plus 2 fits an \<open>int64\<close>; a status or
  error text holds no LF; an integer is an \<open>int64\<close>; a multi-bulk reply has between 1
  and \<open>2^32 - 1\<close> plain items.
\<close>

definition plainPayload :: "string \<Rightarrow> bool" where
  "plainPayload b = (b \<noteq> [] \<and> hd b \<noteq> CHR ''$'' \<and> int (length b) + 2 < 2 ^ 63)"

fun wireSafe :: "Reply \<Rightarrow> bool" where
  "wireSafe (StatusReply s) = (LF \<notin> set s)"
| "wireSafe (StandardErrReply s) = (LF \<notin> set s)"
| "wireSafe (IntReply n) = (- (2 ^ 63) \<le> n \<and> n < 2 ^ 63)"
| "wireSafe (BulkReply b) = plainPayload b"
| "wireSafe NullBulkReply = True"
| "wireSafe (MultiBulkReply items) =
     (items \<noteq> [] \<and> length items < 2 ^ 32 \<and> list_all plainPayload items)"
| "wireSafe EmptyMultiBulkReply = True"
| "wireSafe OkReply = False"

section \<open>Keyspace commands: package \<open>database\<close>\<close>

text \<open>
  An entity carries one of five kinds of data (the type switch of \<open>execType\<close>). Instants
  (\<open>time.Time\<close>) are nanoseconds since the Unix epoch.
\<close>

datatype DataEntity =
    BytesData string
  | ListData "string list"
  | DictData "(string \<times> string) list"
  | SetData "string list"
  | SortedSetData "(string \<times> int) list"

type_synonym Time = int

type_synonym CmdLine = "string list"

text \<open>
  Modelled from the spec: the keyspace of section 4.2 (the source of type \<open>DB\<close> and its
  methods is not among the files at hand). \<open>data\<close> is the mapping from keys to entities, \<open>ttlMap\<close> the companion
  mapping from keys to absolute expiration instants, both as association lists whose
  order is the order \<open>ForEach\<close> visits; \<open>aof\<close> is the AOF sink, the command lines handed
  to \<open>addAof\<close> in order.
\<close>

record DB =
  data :: "(string \<times> DataEntity) list"
  ttlMap :: "(string \<times> Time) list"
  aof :: "CmdLine list"

text \<open>Modelled from the spec: \<open>put(k, entity)\<close> inserts or overwrites and leaves the TTL alone.\<close>

definition PutEntity :: "DB \<Rightarrow> string \<Rightarrow> DataEntity \<Rightarrow> DB" where
  "PutEntity db key entity = db\<lparr>data := AList.update key entity (data db)\<rparr>"

text \<open>Modelled from the spec: \<open>remove(k)\<close> removes the entity and any TTL entry.\<close>

definition Remove :: "DB \<Rightarrow> string \<Rightarrow> DB" where
  "Remove db key =
     db\<lparr>data := AList.delete key (data db), ttlMap := AList.delete key (ttlMap db)\<rparr>"

text \<open>
  Modelled from the spec: \<open>removeMany(ks)\<close> removes each key in turn and returns the
  count of keys that were in the keyspace.
\<close>

fun Removes :: "DB \<Rightarrow> string list \<Rightarrow> int \<times> DB" where
  "Removes db [] = (0, db)"
| "Removes db (key # keys) =
     (if map_of (data db) key \<noteq> None
      then (case Removes (Remove db key) keys of (deleted, db') \<Rightarrow> (deleted + 1, db'))
      else Removes db keys)"

text \<open>Modelled from the spec: \<open>expire(k, instant)\<close> sets the expiration, overriding a prior one.\<close>

definition Expire :: "DB \<Rightarrow> string \<Rightarrow> Time \<Rightarrow> DB" where
  "Expire db key expireTime = db\<lparr>ttlMap := AList.update key expireTime (ttlMap db)\<rparr>"

text \<open>Modelled from the spec: \<open>persist(k)\<close> removes any TTL entry of the key.\<close>

definition Persist :: "DB \<Rightarrow> string \<Rightarrow> DB" where
  "Persist db key = db\<lparr>ttlMap := AList.delete key (ttlMap db)\<rparr>"

text \<open>Modelled from the spec: \<open>flush()\<close> clears all keys and TTLs.\<close>

definition Flush :: "DB \<Rightarrow> DB" where
  "Flush db = db\<lparr>data := [], ttlMap := []\<rparr>"

text \<open>
  Modelled from the spec: a key is expired when it has a TTL entry that is not after
  \<open>now\<close>; \<open>get(k)\<close> checks the TTL on every call, removes an expired key and reports it
  absent.
\<close>

definition IsExpired :: "Time \<Rightarrow> DB \<Rightarrow> string \<Rightarrow> bool" where
  "IsExpired now db key = (case map_of (ttlMap db) key of None \<Rightarrow> False | Some t \<Rightarrow> t \<le> now)"

definition GetEntity :: "Time \<Rightarrow> DB \<Rightarrow> string \<Rightarrow> DataEntity option \<times> DB" where
  "GetEntity now db key =
     (if IsExpired now db key then (None, Remove db key) else (map_of (data db) key, db))"

text \<open>Modelled from the spec: a write appends its command line to the AOF sink.\<close>

definition addAof :: "DB \<Rightarrow> CmdLine \<Rightarrow> DB" where
  "addAof db line = db\<lparr>aof := aof db @ [line]\<rparr>"

text \<open>
  Modelled from the spec: \<open>utils.ToCmdLine3\<close> puts the command name before its
  arguments; \<open>aof.MakeExpireCmd\<close> is the canonical \<open>PEXPIREAT key ms-since-epoch\<close>
  (Go's division truncates toward zero).
\<close>

definition ToCmdLine3 :: "string \<Rightarrow> string list \<Rightarrow> CmdLine" where
  "ToCmdLine3 commandName as = commandName # as"

definition MakeExpireCmd :: "string \<Rightarrow> Time \<Rightarrow> CmdLine" where
  "MakeExpireCmd key expireAt =
     [''PEXPIREAT'', key,
      FormatInt (if expireAt < 0 then - ((- expireAt) div 1000000) else expireAt div 1000000)]"

text \<open>
  The executors of package \<open>database\<close>. Each takes the instant \<open>now\<close> at which it runs
  (where it reads the clock), the database and the arguments after the command name, and
  returns the reply and the database it leaves. An executor that indexes its arguments
  returns an option: \<open>None\<close> is the panic of \<open>args[0]\<close> or \<open>args[1]\<close> out of range.
\<close>

definition execDel :: "DB \<Rightarrow> string list \<Rightarrow> Reply \<times> DB" where
  "execDel db argv =
     (case Removes db argv of
        (deleted, db1) \<Rightarrow>
          (IntReply deleted, if deleted > 0 then addAof db1 (ToCmdLine3 ''del'' argv) else db1))"

fun execExistsLoop :: "Time \<Rightarrow> DB \<Rightarrow> string list \<Rightarrow> int \<Rightarrow> int \<times> DB" where
  "execExistsLoop now db [] result = (result, db)"
| "execExistsLoop now db (key # keys) result =
     (case GetEntity now db key of
        (None, db1) \<Rightarrow> execExistsLoop now db1 keys result
      | (Some entity, db1) \<Rightarrow> execExistsLoop now db1 keys (wrap64 (result + 1)))"

definition execExists :: "Time \<Rightarrow> DB \<Rightarrow> string list \<Rightarrow> Reply \<times> DB" where
  "execExists now db argv = (case execExistsLoop now db argv 0 of (result, db1) \<Rightarrow> (IntReply result, db1))"

definition execFlushDB :: "DB \<Rightarrow> string list \<Rightarrow> Reply \<times> DB" where
  "execFlushDB db argv = (OkReply, addAof (Flush db) (ToCmdLine3 ''flushdb'' argv))"

definition execRename :: "Time \<Rightarrow> DB \<Rightarrow> string list \<Rightarrow> Reply \<times> DB" where
  "execRename now db argv =
     (case argv of
        [src, dest] \<Rightarrow>
          (case GetEntity now db src of
             (None, db1) \<Rightarrow> (StandardErrReply ''no such key'', db1)
           | (Some entity, db1) \<Rightarrow>
               (let rawTTL = map_of (ttlMap db1) src;
                    db2 = PutEntity db1 dest entity;
                    db3 = Remove db2 src;
                    db4 = (case rawTTL of
                             None \<Rightarrow> db3
                           | Some expireTime \<Rightarrow>
                               Expire (Persist (Persist db3 src) dest) dest expireTime)
                in (OkReply, addAof db4 (ToCmdLine3 ''rename'' argv))))
      | _ \<Rightarrow> (StandardErrReply ''ERR wrong number of arguments for 'rename' command'', db))"

fun execRenameNx :: "Time \<Rightarrow> DB \<Rightarrow> string list \<Rightarrow> (Reply \<times> DB) option" where
  "execRenameNx now db (src # dest # more_args) =
     (case GetEntity now db dest of
        (Some found, db1) \<Rightarrow> Some (IntReply 0, db1)
      | (None, db1) \<Rightarrow>
          (case GetEntity now db1 src of
             (None, db2) \<Rightarrow> Some (StandardErrReply ''no such key'', db2)
           | (Some entity, db2) \<Rightarrow>
               (let rawTTL = map_of (ttlMap db2) src;
                    db3 = snd (Removes db2 [src, dest]);
                    db4 = PutEntity db3 dest entity;
                    db5 = (case rawTTL of
                             None \<Rightarrow> db4
                           | Some expireTime \<Rightarrow>
                               Expire (Persist (Persist db4 src) dest) dest expireTime)
                in Some (IntReply 1,
                         addAof db5 (ToCmdLine3 ''renamenx'' (src # dest # more_args))))))"
| "execRenameNx now db argv = None"

fun execExpire :: "Time \<Rightarrow> DB \<Rightarrow> string list \<Rightarrow> (Reply \<times> DB) option" where
  "execExpire now db (key # arg # more_args) =
     (case ParseInt arg 64 of
        (ttlArg, Some err) \<Rightarrow>
          Some (StandardErrReply ''ERR value is not an integer or out of range'', db)
      | (ttlArg, None) \<Rightarrow>
          (let ttl = wrap64 (ttlArg * 1000000000)
           in case GetEntity now db key of
                (None, db1) \<Rightarrow> Some (IntReply 0, db1)
              | (Some entity, db1) \<Rightarrow>
                  (let expireAt = now + ttl;
                       db2 = Expire db1 key expireAt
                   in Some (IntReply 1, addAof db2 (MakeExpireCmd key expireAt)))))"
| "execExpire now db argv = None"

fun execExpireAt :: "Time \<Rightarrow> DB \<Rightarrow> string list \<Rightarrow> (Reply \<times> DB) option" where
  "execExpireAt now db (key # arg # more_args) =
     (case ParseInt arg 64 of
        (raw, Some err) \<Rightarrow>
          Some (StandardErrReply ''ERR value is not an integer or out of range'', db)
      | (raw, None) \<Rightarrow>
          (let expireAt = raw * 1000000000
           in case GetEntity now db key of
                (None, db1) \<Rightarrow> Some (IntReply 0, db1)
              | (Some entity, db1) \<Rightarrow>
                  (let db2 = Expire db1 key expireAt
                   in Some (IntReply 1, addAof db2 (MakeExpireCmd key expireAt)))))"
| "execExpireAt now db argv = None"

fun execPExpire :: "Time \<Rightarrow> DB \<Rightarrow> string list \<Rightarrow> (Reply \<times> DB) option" where
  "execPExpire now db (key # arg # more_args) =
     (case ParseInt arg 64 of
        (ttlArg, Some err) \<Rightarrow>
          Some (StandardErrReply ''ERR value is not an integer or out of range'', db)
      | (ttlArg, None) \<Rightarrow>
          (let ttl = wrap64 (ttlArg * 1000000)
           in case GetEntity now db key of
                (None, db1) \<Rightarrow> Some (IntReply 0, db1)
              | (Some entity, db1) \<Rightarrow>
                  (let expireAt = now + ttl;
                       db2 = Expire db1 key expireAt
                   in Some (IntReply 1, addAof db2 (MakeExpireCmd key expireAt)))))"
| "execPExpire now db argv = None"

fun execPExpireAt :: "Time \<Rightarrow> DB \<Rightarrow> string list \<Rightarrow> (Reply \<times> DB) option" where
  "execPExpireAt now db (key # arg # more_args) =
     (case ParseInt arg 64 of
        (raw, Some err) \<Rightarrow>
          Some (StandardErrReply ''ERR value is not an integer or out of range'', db)
      | (raw, None) \<Rightarrow>
          (let expireAt = wrap64 (raw * 1000000)
           in case GetEntity now db key of
                (None, db1) \<Rightarrow> Some (IntReply 0, db1)
              | (Some entity, db1) \<Rightarrow>
                  (let db2 = Expire db1 key expireAt
                   in Some (IntReply 1, addAof db2 (MakeExpireCmd key expireAt)))))"
| "execPExpireAt now db argv = None"

text \<open>
  The four expiration executors end alike, with the existence check, \<open>db.Expire\<close>, the
  AOF record and the reply; the proofs go through this common tail.
\<close>

definition setExpire :: "Time \<Rightarrow> DB \<Rightarrow> string \<Rightarrow> Time \<Rightarrow> Reply \<times> DB" where
  "setExpire now db key expireAt =
     (case GetEntity now db key of
        (None, db1) \<Rightarrow> (IntReply 0, db1)
      | (Some entity, db1) \<Rightarrow>
          (IntReply 1, addAof (Expire db1 key expireAt) (MakeExpireCmd key expireAt)))"

fun execPersist :: "Time \<Rightarrow> DB \<Rightarrow> string list \<Rightarrow> (Reply \<times> DB) option" where
  "execPersist now db (key # more_args) =
     (case GetEntity now db key of
        (None, db1) \<Rightarrow> Some (IntReply 0, db1)
      | (Some entity, db1) \<Rightarrow>
          (case map_of (ttlMap db1) key of
             None \<Rightarrow> Some (IntReply 0, db1)
           | Some t \<Rightarrow>
               Some (IntReply 1,
                     addAof (Persist db1 key) (ToCmdLine3 ''persist'' (key # more_args)))))"
| "execPersist now db argv = None"

text \<open>
  \<open>execKeys\<close> walks \<open>db.data\<close> with \<open>ForEach\<close>. The glob matcher of package \<open>wildcard\<close>
  is not among the files at hand; it is the parameter \<open>IsMatch pattern key\<close>.
\<close>

fun execKeys :: "(string \<Rightarrow> string \<Rightarrow> bool) \<Rightarrow> DB \<Rightarrow> string list \<Rightarrow> (Reply \<times> DB) option" where
  "execKeys IsMatch db (pattern # more_args) =
     Some (MultiBulkReply (map fst (filter (\<lambda>(key, val). IsMatch pattern key) (data db))), db)"
| "execKeys IsMatch db argv = None"

text \<open>The write executors, by the name each hands to the AOF.\<close>

definition writeExecutors ::
  "(string \<times> (Time \<Rightarrow> DB \<Rightarrow> string list \<Rightarrow> (Reply \<times> DB) option)) list" where
  "writeExecutors =
     [(''del'', \<lambda>now db argv. Some (execDel db argv)),
      (''flushdb'', \<lambda>now db argv. Some (execFlushDB db argv)),
      (''rename'', \<lambda>now db argv. Some (execRename now db argv)),
      (''renamenx'', execRenameNx),
      (''expire'', execExpire),
      (''expireat'', execExpireAt),
      (''pexpire'', execPExpire),
      (''pexpireat'', execPExpireAt),
      (''persist'', execPersist)]"

text \<open>The no-orphan-TTL invariant: every key of the TTL mapping is a key of the keyspace.\<close>

definition noOrphanTTL :: "DB \<Rightarrow> bool" where
  "noOrphanTTL db = (set (map fst (ttlMap db)) \<subseteq> set (map fst (data db)))"


section \<open>Evaluating the parser on concrete inputs\<close>

lemmas parse_eval =
  parse0_def parse0_loop.simps parse0_body_def readLine_def emptyState_def index_def slice_def
  parseBulkHeader_def parseMultiBulkHeader_def parseSingleLineReply_def readBody_def
  ParseInt_def ParseUint_def isDigit_def digitVal_def wrap64_def ReadFull_def TrimSuffix_def
  finished_def protocolError_def Let_def

lemmas db_eval =
  GetEntity_def IsExpired_def PutEntity_def Remove_def Expire_def Persist_def Flush_def
  addAof_def ToCmdLine3_def

section \<open>The parser's line handling\<close>

text \<open>
  C10 (parser line handling is total). The claim: reading a header line never indexes
  the line out of range, and a line that is a lone LF is reported as a protocol error.
  On the code it is not: \<open>readLine\<close> guards only \<open>len(msg) == 0\<close> before it reads
  \<open>msg[len(msg)-2]\<close>, so the one-byte line panics. \<open>parse0\<close> recovers, sends nothing and
  never closes the channel, and \<open>ParseBytes\<close> waits on it for ever.
\<close>

theorem readLine_lone_LF_panics:
  "fst (readLine [LF] emptyState) = None
   \<and> parse0 [LF] = ([], Recovered)
   \<and> ParseBytes [LF] = None"
  by (simp add: ParseBytes_def parse_eval)

text \<open>
  C6 (zero-length bulk). The claim: a standalone \<open>$0\<close> header with its empty payload is
  parsed as an empty bulk string. On the code \<open>parseBulkHeader\<close> accepts a length only
  when it is \<open>-1\<close> or positive: \<open>$0\<close> is answered with a protocol error, and the CRLF of
  the empty payload is then read as an inline command with one empty argument.
\<close>

theorem parse0_zero_length_bulk_rejected:
  "parse0 (''$0'' @ [CR, LF] @ [CR, LF]) =
     ([Payload None (Some (New (''protocol error: $0'' @ [CR, LF]))),
       Payload (Some (MultiBulkReply [[]])) None,
       Payload None (Some EOF)], Closed)"
  by (simp add: parse_eval)

text \<open>
  C2 (binary-safe multi-bulk parsing). The claim: the arguments of a multi-bulk message
  are its payloads byte for byte, also when a payload starts with \<open>$\<close>. On the code
  \<open>readBody\<close> looks at the first byte of every line it is given, payloads included, and
  reads a payload that starts with \<open>$\<close> as a bulk header: the message \<open>*1 $2 $a\<close> is
  answered with a protocol error.
\<close>

theorem readBody_dollar_payload_rejected:
  "parse0 (''*1'' @ [CR, LF] @ ''$2'' @ [CR, LF] @ ''$a'' @ [CR, LF]) =
     ([Payload None (Some (New (''protocol error: $a'' @ [CR, LF]))),
       Payload None (Some EOF)], Closed)"
  by (simp add: parse_eval)

section \<open>Decimal numbers: formatting and parsing\<close>

lemma digitChar_props:
  assumes "d < 10"
  shows "isDigit (digitChar d) \<and> digitVal (digitChar d) = d"
proof -
  from assms have "d \<in> {0, 1, 2, 3, 4, 5, 6, 7, 8, 9}" by auto
  then show ?thesis
    by (auto simp: isDigit_def digitVal_def digitChar_def)
qed

lemma isDigit_not_special:
  "isDigit c \<Longrightarrow> c \<noteq> LF \<and> c \<noteq> CR \<and> c \<noteq> CHR ''-'' \<and> c \<noteq> CHR ''+''"
  by (auto simp: isDigit_def)

lemma FormatUint_digits: "list_all isDigit (FormatUint n) \<and> FormatUint n \<noteq> []"
proof (induction n rule: FormatUint.induct)
  case (1 n)
  show ?case
  proof (cases "n < 10")
    case True
    then show ?thesis by (simp add: FormatUint.simps [of n] digitChar_props)
  next
    case False
    with 1 show ?thesis by (simp add: FormatUint.simps [of n] digitChar_props)
  qed
qed

lemma parseDigits_snoc:
  "parseDigits m a xs = (v, None) \<Longrightarrow> isDigit c \<Longrightarrow> v * 10 + digitVal c \<le> m \<Longrightarrow>
     parseDigits m a (xs @ [c]) = (v * 10 + digitVal c, None)"
  by (induction xs arbitrary: a) (auto split: if_splits)

lemma parseDigits_FormatUint:
  "n \<le> m \<Longrightarrow> parseDigits m 0 (FormatUint n) = (n, None)"
proof (induction n rule: FormatUint.induct)
  case (1 n)
  show ?case
  proof (cases "n < 10")
    case True
    with 1(2) show ?thesis by (simp add: FormatUint.simps [of n] digitChar_props)
  next
    case False
    have d: "n mod 10 < 10" by simp
    from False 1 have ih: "parseDigits m 0 (FormatUint (n div 10)) = (n div 10, None)" by simp
    have "parseDigits m 0 (FormatUint (n div 10) @ [digitChar (n mod 10)])
            = (n div 10 * 10 + digitVal (digitChar (n mod 10)), None)"
      using 1(2) by (intro parseDigits_snoc [OF ih]) (simp_all add: digitChar_props [OF d])
    with False show ?thesis by (simp add: FormatUint.simps [of n] digitChar_props [OF d])
  qed
qed

lemma ParseUint_FormatUint:
  "n < 2 ^ bits \<Longrightarrow> ParseUint (FormatUint n) bits = (n, None)"
  using FormatUint_digits [of n] by (simp add: ParseUint_def parseDigits_FormatUint)

lemma hd_FormatUint: "\<exists>c cs. FormatUint n = c # cs \<and> isDigit c"
  using FormatUint_digits [of n] by (cases "FormatUint n") auto

lemma ParseInt_FormatInt:
  assumes "- (2 ^ 63) \<le> n" and "n < 2 ^ 63"
  shows "ParseInt (FormatInt n) 64 = (n, None)"
proof (cases "n < 0")
  case True
  with assms have b: "nat (- n) < 2 ^ 64" "nat (- n) \<le> 2 ^ 63" by auto
  from True have "ParseInt (FormatInt n) 64 = (- int (nat (- n)), None)"
    using ParseUint_FormatUint [of "nat (- n)" 64] b
    by (simp add: ParseInt_def FormatInt_def)
  with True show ?thesis by simp
next
  case False
  with assms have b: "nat n < 2 ^ 64" "nat n < 2 ^ 63" by auto
  obtain c cs where f: "FormatUint (nat n) = c # cs" and c: "isDigit c"
    using hd_FormatUint by blast
  from c have "c \<noteq> CHR ''-'' \<and> c \<noteq> CHR ''+''" by (simp add: isDigit_not_special)
  with False f b show ?thesis
    using ParseUint_FormatUint [of "nat n" 64]
    by (simp add: ParseInt_def FormatInt_def)
qed

lemma FormatInt_no_LF: "LF \<notin> set (FormatInt n)"
proof -
  have "\<And>k. LF \<notin> set (FormatUint k)"
    using FormatUint_digits isDigit_not_special by (fastforce simp: list_all_iff)
  then show ?thesis by (simp add: FormatInt_def)
qed

section \<open>Reading lines and payloads\<close>

lemma ReadBytes_line:
  "LF \<notin> set xs \<Longrightarrow> ReadBytes LF (xs @ LF # rest) = ((xs @ [LF], None), rest)"
  by (induction xs) auto

lemma index_first: "index (c # cs) 0 = Some c"
  by (simp add: index_def)

lemma index_CR:
  assumes "msg = xs @ [CR, LF]"
  shows "index msg (int (length msg) - 2) = Some CR"
proof -
  from assms have "int (length msg) - 2 = int (length xs)" by simp
  moreover have "(xs @ [CR, LF]) ! length xs = CR" by (simp add: nth_append)
  ultimately show ?thesis using assms by (simp add: index_def)
qed

lemma index_LF:
  assumes "msg = xs @ [CR, LF]"
  shows "index msg (int (length msg) - 1) = Some LF"
proof -
  from assms have n: "nat (int (length msg) - 1) = Suc (length xs)" by simp
  have "(xs @ [CR, LF]) ! Suc (length xs) = LF" by (simp add: nth_append)
  with assms n have "msg ! nat (int (length msg) - 1) = LF" by simp
  moreover from assms have "0 \<le> int (length msg) - 1 \<and> int (length msg) - 1 < int (length msg)"
    by simp
  ultimately show ?thesis unfolding index_def by simp
qed

lemma slice_header:
  assumes "msg = c # xs @ [CR, LF]"
  shows "slice msg 1 (int (length msg) - 2) = Some xs"
  using assms by (simp add: slice_def)

lemma slice_line:
  assumes "msg = xs @ [CR, LF]"
  shows "slice msg 0 (int (length msg) - 2) = Some xs"
  using assms by (simp add: slice_def)

lemma slice_tail: "slice (c # xs) 1 (int (length (c # xs))) = Some xs"
  by (simp add: slice_def)

lemma TrimSuffix_CRLF: "TrimSuffix (xs @ [CR, LF]) [CR, LF] = xs"
  by (simp add: TrimSuffix_def)

lemma readLine_ReadBytes:
  assumes "bulkLen state = 0" and "ReadBytes LF input = ((msg, None), rest)"
    and "msg \<noteq> []" and "index msg (int (length msg) - 2) = Some CR"
  shows "readLine input state = (Some (msg, False, None), rest, state)"
  using assms by (simp add: readLine_def)

lemma readLine_header:
  assumes "bulkLen state = 0" and "LF \<notin> set xs"
  shows "readLine (xs @ [CR, LF] @ rest) state = (Some (xs @ [CR, LF], False, None), rest, state)"
proof -
  have "ReadBytes LF ((xs @ [CR]) @ LF # rest) = (((xs @ [CR]) @ [LF], None), rest)"
    using assms(2) by (intro ReadBytes_line) simp
  then have r: "ReadBytes LF (xs @ [CR, LF] @ rest) = ((xs @ [CR, LF], None), rest)" by simp
  show ?thesis
    by (rule readLine_ReadBytes [OF assms(1) r _ index_CR [OF refl]]) simp
qed

lemma readLine_ReadFull:
  assumes "bulkLen state \<noteq> 0" and "wrap64 (bulkLen state + 2) = int n"
    and "ReadFull n input = ((msg, None), rest)"
    and "msg \<noteq> []" and "index msg (int (length msg) - 2) = Some CR"
    and "index msg (int (length msg) - 1) = Some LF"
  shows "readLine input state = (Some (msg, False, None), rest, state\<lparr>bulkLen := 0\<rparr>)"
  using assms by (simp add: readLine_def Let_def)

lemma readLine_payload:
  assumes "bulkLen state = int (length b)" and "b \<noteq> []" and "int (length b) + 2 < 2 ^ 63"
  shows "readLine (b @ [CR, LF] @ rest) state
           = (Some (b @ [CR, LF], False, None), rest, state\<lparr>bulkLen := 0\<rparr>)"
proof -
  from assms(3) have "wrap64 (int (length b) + 2) = int (length b) + 2"
    by (simp add: wrap64_def)
  then have w: "wrap64 (bulkLen state + 2) = int (length b + 2)" using assms(1) by simp
  have f: "ReadFull (length b + 2) (b @ [CR, LF] @ rest) = ((b @ [CR, LF], None), rest)"
    by (simp add: ReadFull_def)
  from assms(1,2) have nz: "bulkLen state \<noteq> 0" by simp
  show ?thesis
    by (rule readLine_ReadFull [OF nz w f _ index_CR [OF refl] index_LF [OF refl]]) simp
qed

lemma readLine_EOF: "bulkLen state = 0 \<Longrightarrow> readLine [] state = (Some ([], True, Some EOF), [], state)"
  by (simp add: readLine_def)

lemma loop_Continue:
  "parse0_body state input = (out, Continue state', rest) \<Longrightarrow>
     parse0_loop state input = (out @ fst (parse0_loop state' rest), snd (parse0_loop state' rest))"
  by (subst parse0_loop.simps) (simp split: prod.splits)

lemma loop_EOF: "bulkLen state = 0 \<Longrightarrow> parse0_loop state [] = ([Payload None (Some EOF)], Closed)"
  by (subst parse0_loop.simps) (simp add: parse0_body_def readLine_EOF)

lemma loop_after_reply:
  "parse0_body state input = ([p], Continue emptyState, []) \<Longrightarrow>
     parse0_loop state input = ([p, Payload None (Some EOF)], Closed)"
  by (simp add: loop_Continue loop_EOF emptyState_def)

section \<open>One iteration of the parse loop\<close>

lemma body_single:
  assumes "readLine input state = (Some (msg, False, None), rest, state')"
    and "\<not> readingMultiLine state'" and "index msg 0 = Some t"
    and "t \<noteq> CHR ''*''" and "t \<noteq> CHR ''$''"
    and "parseSingleLineReply msg = Some (result, err)"
  shows "parse0_body state input = ([Payload result err], Continue emptyState, rest)"
  using assms by (simp add: parse0_body_def)

lemma body_multi_header:
  assumes "readLine input state = (Some (msg, False, None), rest, state')"
    and "\<not> readingMultiLine state'" and "index msg 0 = Some (CHR ''*'')"
    and "parseMultiBulkHeader msg state' = Some (None, st2)"
  shows "parse0_body state input =
           (if expectedArgsCount st2 = 0
            then ([Payload (Some EmptyMultiBulkReply) None], Continue emptyState, rest)
            else ([], Continue st2, rest))"
  using assms by (simp add: parse0_body_def)

lemma body_bulk_header:
  assumes "readLine input state = (Some (msg, False, None), rest, state')"
    and "\<not> readingMultiLine state'" and "index msg 0 = Some (CHR ''$'')"
    and "parseBulkHeader msg state' = Some (None, st2)"
  shows "parse0_body state input =
           (if bulkLen st2 = - 1
            then ([Payload (Some NullBulkReply) None], Continue emptyState, rest)
            else ([], Continue st2, rest))"
  using assms by (simp add: parse0_body_def)

lemma body_readBody:
  assumes "readLine input state = (Some (msg, False, None), rest, state')"
    and "readingMultiLine state'"
    and "readBody msg state' = Some (None, st2)"
  shows "parse0_body state input =
           (if finished st2 then
              (if msgType st2 = CHR ''*'' then
                 ([Payload (Some (MultiBulkReply (args st2))) None], Continue emptyState, rest)
               else if msgType st2 = CHR ''$'' then
                 (case index (args st2) 0 of
                    None \<Rightarrow> ([], Panic, rest)
                  | Some a \<Rightarrow> ([Payload (Some (BulkReply a)) None], Continue emptyState, rest))
               else ([Payload None None], Continue emptyState, rest))
            else ([], Continue st2, rest))"
  using assms by (simp add: parse0_body_def)

lemma parseSingleLineReply_status:
  "parseSingleLineReply (CHR ''+'' # s @ [CR, LF]) = Some (Some (StatusReply s), None)"
  using TrimSuffix_CRLF [of "CHR ''+'' # s"]
  by (simp add: parseSingleLineReply_def index_first slice_def)

lemma parseSingleLineReply_error:
  "parseSingleLineReply (CHR ''-'' # s @ [CR, LF]) = Some (Some (StandardErrReply s), None)"
  using TrimSuffix_CRLF [of "CHR ''-'' # s"]
  by (simp add: parseSingleLineReply_def index_first slice_def)

lemma parseSingleLineReply_int:
  assumes "- (2 ^ 63) \<le> n" and "n < 2 ^ 63"
  shows "parseSingleLineReply (CHR '':'' # FormatInt n @ [CR, LF]) = Some (Some (IntReply n), None)"
  using TrimSuffix_CRLF [of "CHR '':'' # FormatInt n"] ParseInt_FormatInt [OF assms]
  by (simp add: parseSingleLineReply_def index_first slice_def)

lemma FormatInt_nat: "FormatInt (int n) = FormatUint n"
  by (simp add: FormatInt_def)

lemma parseMultiBulkHeader_count:
  assumes "0 < n" and "n < 2 ^ 32" and "msg = CHR ''*'' # FormatInt (int n) @ [CR, LF]"
  shows "parseMultiBulkHeader msg state =
           Some (None, state\<lparr>msgType := CHR ''*'', readingMultiLine := True,
                              expectedArgsCount := int n, args := []\<rparr>)"
  using assms(1) slice_header [OF assms(3)] ParseUint_FormatUint [OF assms(2)] assms(3)
  by (simp add: parseMultiBulkHeader_def FormatInt_nat index_first)

lemma parseBulkHeader_length:
  assumes "0 < n" and "int n < 2 ^ 63" and "msg = CHR ''$'' # FormatInt (int n) @ [CR, LF]"
  shows "parseBulkHeader msg state =
           Some (None, state\<lparr>bulkLen := int n, msgType := CHR ''$'', readingMultiLine := True,
                              expectedArgsCount := 1, args := []\<rparr>)"
proof -
  from assms(2) have "ParseInt (FormatInt (int n)) 64 = (int n, None)"
    by (intro ParseInt_FormatInt) simp_all
  with assms(1) slice_header [OF assms(3)] assms(3) show ?thesis
    by (simp add: parseBulkHeader_def index_first)
qed

lemma readBody_length:
  assumes "0 < n" and "int n < 2 ^ 63" and "msg = CHR ''$'' # FormatInt (int n) @ [CR, LF]"
  shows "readBody msg state = Some (None, state\<lparr>bulkLen := int n\<rparr>)"
proof -
  from assms(2) have p: "ParseInt (FormatInt (int n)) 64 = (int n, None)"
    by (intro ParseInt_FormatInt) simp_all
  have s: "slice msg 0 (int (length msg) - 2) = Some (CHR ''$'' # FormatInt (int n))"
    using assms(3) by (intro slice_line) simp
  show ?thesis
    using assms(1) p unfolding readBody_def s by (simp add: index_first slice_def)
qed

lemma readBody_payload:
  assumes "b \<noteq> []" and "hd b \<noteq> CHR ''$''" and "msg = b @ [CR, LF]"
  shows "readBody msg state = Some (None, state\<lparr>args := args state @ [b]\<rparr>)"
proof -
  from assms(1) obtain c cs where b: "b = c # cs" by (cases b) auto
  with assms(2) have c: "index b 0 = Some c \<and> c \<noteq> CHR ''$''" by (simp add: index_first)
  show ?thesis
    using c by (simp add: readBody_def slice_line [OF assms(3)])
qed

section \<open>Parsing the wire form of a reply\<close>

lemma emptyState_fields:
  "bulkLen emptyState = 0" "\<not> readingMultiLine emptyState"
  by (simp_all add: emptyState_def)

lemma parse0_single_line:
  assumes "LF \<notin> set xs" and "t \<noteq> LF" and "t \<noteq> CHR ''*''" and "t \<noteq> CHR ''$''"
    and "parseSingleLineReply (t # xs @ [CR, LF]) = Some (Some reply, None)"
  shows "parse0 (t # xs @ [CR, LF]) = ([Payload (Some reply) None, Payload None (Some EOF)], Closed)"
proof -
  have "readLine ((t # xs) @ [CR, LF] @ []) emptyState
          = (Some ((t # xs) @ [CR, LF], False, None), [], emptyState)"
    using assms(1,2) by (intro readLine_header emptyState_fields) auto
  then have r: "readLine (t # xs @ [CR, LF]) emptyState
                  = (Some (t # xs @ [CR, LF], False, None), [], emptyState)"
    by simp
  have "parse0_body emptyState (t # xs @ [CR, LF])
          = ([Payload (Some reply) None], Continue emptyState, [])"
    by (rule body_single [OF r emptyState_fields(2) index_first assms(3,4,5)])
  then show ?thesis unfolding parse0_def by (rule loop_after_reply)
qed

lemma parse0_status:
  "LF \<notin> set s \<Longrightarrow>
     parse0 (ToBytes (StatusReply s)) =
       ([Payload (Some (StatusReply s)) None, Payload None (Some EOF)], Closed)"
  using parse0_single_line [of s "CHR ''+''" "StatusReply s"]
  by (simp add: parseSingleLineReply_status)

lemma parse0_error:
  "LF \<notin> set s \<Longrightarrow>
     parse0 (ToBytes (StandardErrReply s)) =
       ([Payload (Some (StandardErrReply s)) None, Payload None (Some EOF)], Closed)"
  using parse0_single_line [of s "CHR ''-''" "StandardErrReply s"]
  by (simp add: parseSingleLineReply_error)

lemma parse0_int:
  assumes "- (2 ^ 63) \<le> n" and "n < 2 ^ 63"
  shows "parse0 (ToBytes (IntReply n)) =
           ([Payload (Some (IntReply n)) None, Payload None (Some EOF)], Closed)"
  using parse0_single_line [of "FormatInt n" "CHR '':''" "IntReply n"]
    parseSingleLineReply_int [OF assms] FormatInt_no_LF [of n]
  by simp

lemma parse0_null_bulk:
  "parse0 (ToBytes NullBulkReply) =
     ([Payload (Some NullBulkReply) None, Payload None (Some EOF)], Closed)"
  by (simp add: parse_eval)

lemma parse0_empty_multi_bulk:
  "parse0 (ToBytes EmptyMultiBulkReply) =
     ([Payload (Some EmptyMultiBulkReply) None, Payload None (Some EOF)], Closed)"
  by (simp add: parse_eval)

lemma header_line:
  assumes "bulkLen state = 0" and "t \<noteq> LF"
  shows "readLine (t # FormatInt n @ [CR, LF] @ rest) state
           = (Some (t # FormatInt n @ [CR, LF], False, None), rest, state)"
proof -
  have "readLine ((t # FormatInt n) @ [CR, LF] @ rest) state
          = (Some ((t # FormatInt n) @ [CR, LF], False, None), rest, state)"
    using assms FormatInt_no_LF [of n] by (intro readLine_header) auto
  then show ?thesis by simp
qed

lemma parse0_bulk:
  assumes "plainPayload b"
  shows "parse0 (ToBytes (BulkReply b)) =
           ([Payload (Some (BulkReply b)) None, Payload None (Some EOF)], Closed)"
proof -
  define hdr where "hdr = CHR ''$'' # FormatInt (int (length b)) @ [CR, LF]"
  define st1 where "st1 = emptyState\<lparr>bulkLen := int (length b), msgType := CHR ''$'',
    readingMultiLine := True, expectedArgsCount := 1, args := []\<rparr>"
  from assms have b: "b \<noteq> []" "hd b \<noteq> CHR ''$''" "int (length b) + 2 < 2 ^ 63"
    by (simp_all add: plainPayload_def)
  have input: "ToBytes (BulkReply b) = CHR ''$'' # FormatInt (int (length b)) @ [CR, LF] @ (b @ [CR, LF])"
    by (simp add: bulkBytes_def)
  have r1: "readLine (ToBytes (BulkReply b)) emptyState = (Some (hdr, False, None), b @ [CR, LF], emptyState)"
    unfolding input hdr_def by (rule header_line) (simp_all add: emptyState_fields)
  have h: "parseBulkHeader hdr emptyState = Some (None, st1)"
    unfolding st1_def using b by (intro parseBulkHeader_length) (simp_all add: hdr_def)
  have "parse0_body emptyState (ToBytes (BulkReply b)) = ([], Continue st1, b @ [CR, LF])"
    using body_bulk_header [OF r1 emptyState_fields(2) _ h] by (simp add: hdr_def index_first st1_def)
  then have l1: "parse0 (ToBytes (BulkReply b)) = parse0_loop st1 (b @ [CR, LF])"
    unfolding parse0_def by (simp add: loop_Continue)
  have "readLine (b @ [CR, LF] @ []) st1 = (Some (b @ [CR, LF], False, None), [], st1\<lparr>bulkLen := 0\<rparr>)"
    using b by (intro readLine_payload) (simp_all add: st1_def)
  then have r2: "readLine (b @ [CR, LF]) st1 = (Some (b @ [CR, LF], False, None), [], st1\<lparr>bulkLen := 0\<rparr>)"
    by simp
  have rb: "readBody (b @ [CR, LF]) (st1\<lparr>bulkLen := 0\<rparr>)
              = Some (None, st1\<lparr>bulkLen := 0\<rparr>\<lparr>args := args (st1\<lparr>bulkLen := 0\<rparr>) @ [b]\<rparr>)"
    using b by (intro readBody_payload) simp_all
  have "parse0_body st1 (b @ [CR, LF]) = ([Payload (Some (BulkReply b)) None], Continue emptyState, [])"
    using body_readBody [OF r2 _ rb] by (simp add: st1_def finished_def index_first)
  then have "parse0_loop st1 (b @ [CR, LF]) = ([Payload (Some (BulkReply b)) None, Payload None (Some EOF)], Closed)"
    by (rule loop_after_reply)
  with l1 show ?thesis by simp
qed

lemma parse0_loop_items:
  assumes "list_all plainPayload items" and "items \<noteq> []"
    and "expectedArgsCount st = int (length (args st) + length items)"
    and "readingMultiLine st" and "msgType st = CHR ''*''" and "bulkLen st = 0"
  shows "parse0_loop st (concat (map bulkBytes items)) =
           ([Payload (Some (MultiBulkReply (args st @ items))) None, Payload None (Some EOF)], Closed)"
  using assms
proof (induction items arbitrary: st)
  case Nil
  then show ?case by simp
next
  case (Cons b bs)
  define hdr where "hdr = CHR ''$'' # FormatInt (int (length b)) @ [CR, LF]"
  define rest where "rest = concat (map bulkBytes bs)"
  define st1 where "st1 = st\<lparr>bulkLen := int (length b)\<rparr>"
  define st3 where "st3 = st\<lparr>args := args st @ [b]\<rparr>"
  from Cons.prems(1) have b: "b \<noteq> []" "hd b \<noteq> CHR ''$''" "int (length b) + 2 < 2 ^ 63"
    by (simp_all add: plainPayload_def)
  have input: "concat (map bulkBytes (b # bs))
                 = CHR ''$'' # FormatInt (int (length b)) @ [CR, LF] @ (b @ [CR, LF] @ rest)"
    by (simp add: bulkBytes_def rest_def)
  have r1: "readLine (concat (map bulkBytes (b # bs))) st = (Some (hdr, False, None), b @ [CR, LF] @ rest, st)"
    unfolding input hdr_def by (rule header_line) (simp_all add: Cons.prems)
  have h: "readBody hdr st = Some (None, st1)"
    unfolding st1_def using b by (intro readBody_length) (simp_all add: hdr_def)
  have nf: "\<not> finished st1"
    using Cons.prems(3) by (simp add: finished_def st1_def)
  have "parse0_body st (concat (map bulkBytes (b # bs))) = ([], Continue st1, b @ [CR, LF] @ rest)"
    using body_readBody [OF r1 Cons.prems(4) h] nf by simp
  then have l1: "parse0_loop st (concat (map bulkBytes (b # bs))) = parse0_loop st1 (b @ [CR, LF] @ rest)"
    by (simp add: loop_Continue)
  have r2: "readLine (b @ [CR, LF] @ rest) st1 = (Some (b @ [CR, LF], False, None), rest, st1\<lparr>bulkLen := 0\<rparr>)"
    using b by (intro readLine_payload) (simp_all add: st1_def)
  have s2: "st1\<lparr>bulkLen := 0\<rparr> = st" using Cons.prems(6) by (simp add: st1_def)
  have rb: "readBody (b @ [CR, LF]) st = Some (None, st3)"
    unfolding st3_def using b by (intro readBody_payload) simp_all
  have body2: "parse0_body st1 (b @ [CR, LF] @ rest) =
           (if finished st3 then
              ([Payload (Some (MultiBulkReply (args st3))) None], Continue emptyState, rest)
            else ([], Continue st3, rest))"
    using body_readBody [OF r2 _ _, of st3] rb s2 Cons.prems(4,5) by (simp add: st3_def)
  show ?case
  proof (cases "bs = []")
    case True
    then have "finished st3" "rest = []" using Cons.prems(3) by (simp_all add: finished_def st3_def rest_def)
    with body2 have "parse0_loop st1 (b @ [CR, LF] @ rest)
        = ([Payload (Some (MultiBulkReply (args st3))) None, Payload None (Some EOF)], Closed)"
      by (intro loop_after_reply) simp
    with l1 True show ?thesis by (simp add: st3_def)
  next
    case False
    then have "\<not> finished st3" using Cons.prems(3) by (simp add: finished_def st3_def)
    with body2 have "parse0_loop st1 (b @ [CR, LF] @ rest) = parse0_loop st3 rest"
      by (simp add: loop_Continue)
    moreover have "parse0_loop st3 (concat (map bulkBytes bs)) =
        ([Payload (Some (MultiBulkReply (args st3 @ bs))) None, Payload None (Some EOF)], Closed)"
      using Cons.prems False by (intro Cons.IH) (simp_all add: st3_def)
    ultimately show ?thesis using l1 by (simp add: rest_def st3_def)
  qed
qed

lemma parse0_multi_bulk:
  assumes "items \<noteq> []" and "length items < 2 ^ 32" and "list_all plainPayload items"
  shows "parse0 (ToBytes (MultiBulkReply items)) =
           ([Payload (Some (MultiBulkReply items)) None, Payload None (Some EOF)], Closed)"
proof -
  define hdr where "hdr = CHR ''*'' # FormatInt (int (length items)) @ [CR, LF]"
  define st1 where "st1 = emptyState\<lparr>msgType := CHR ''*'', readingMultiLine := True,
    expectedArgsCount := int (length items), args := []\<rparr>"
  have input: "ToBytes (MultiBulkReply items)
     = CHR ''*'' # FormatInt (int (length items)) @ [CR, LF] @ concat (map bulkBytes items)"
    by simp
  have r1: "readLine (ToBytes (MultiBulkReply items)) emptyState
              = (Some (hdr, False, None), concat (map bulkBytes items), emptyState)"
    unfolding input hdr_def by (rule header_line) (simp_all add: emptyState_fields)
  have h: "parseMultiBulkHeader hdr emptyState = Some (None, st1)"
    unfolding st1_def using assms(1,2) by (intro parseMultiBulkHeader_count) (simp_all add: hdr_def)
  have "parse0_body emptyState (ToBytes (MultiBulkReply items)) = ([], Continue st1, concat (map bulkBytes items))"
    using body_multi_header [OF r1 emptyState_fields(2) _ h] assms(1)
    by (simp add: hdr_def index_first st1_def)
  then have "parse0 (ToBytes (MultiBulkReply items)) = parse0_loop st1 (concat (map bulkBytes items))"
    unfolding parse0_def by (simp add: loop_Continue)
  moreover have "parse0_loop st1 (concat (map bulkBytes items)) =
      ([Payload (Some (MultiBulkReply (args st1 @ items))) None, Payload None (Some EOF)], Closed)"
    using assms by (intro parse0_loop_items) (simp_all add: st1_def emptyState_def)
  ultimately show ?thesis by (simp add: st1_def)
qed

text \<open>
  C1 (RESP round trip), as amended. The claim: for every reply, parsing its wire form
  yields the reply again, the empty bulk string included. On the code that holds for
  the replies that are \<open>wireSafe\<close>: a status or error without LF, an integer, the null
  bulk, a bulk string that is not empty and does not start with \<open>$\<close>, the empty array,
  and a multi-bulk array of such bulk strings. For each of them \<open>ParseBytes\<close> returns
  exactly that reply and no error, and \<open>ParseOne\<close> returns it as the first payload.
\<close>

theorem parse_serialize_roundtrip:
  assumes "wireSafe reply"
  shows "ParseBytes (ToBytes reply) = Some ([Some reply], None)
         \<and> ParseOne (ToBytes reply) = Some (Some reply, None)"
proof -
  have "parse0 (ToBytes reply) = ([Payload (Some reply) None, Payload None (Some EOF)], Closed)"
  proof (cases reply)
    case (StatusReply s)
    with assms show ?thesis by (simp add: parse0_status del: ToBytes.simps)
  next
    case (StandardErrReply s)
    with assms show ?thesis by (simp add: parse0_error del: ToBytes.simps)
  next
    case (IntReply n)
    with assms show ?thesis by (simp add: parse0_int del: ToBytes.simps)
  next
    case (BulkReply b)
    with assms show ?thesis by (simp add: parse0_bulk del: ToBytes.simps)
  next
    case NullBulkReply
    then show ?thesis by (simp only: parse0_null_bulk)
  next
    case (MultiBulkReply items)
    with assms show ?thesis by (simp add: parse0_multi_bulk del: ToBytes.simps)
  next
    case EmptyMultiBulkReply
    then show ?thesis by (simp only: parse0_empty_multi_bulk)
  next
    case OkReply
    with assms show ?thesis by simp
  qed
  then show ?thesis by (simp add: ParseBytes_def ParseOne_def)
qed

theorem parse_serialize_roundtrip_witness:
  "wireSafe (MultiBulkReply [''SET'', ''k'', ''v''])
   \<and> ParseBytes (ToBytes (MultiBulkReply [''SET'', ''k'', ''v'']))
       = Some ([Some (MultiBulkReply [''SET'', ''k'', ''v''])], None)
   \<and> ParseOne (ToBytes (MultiBulkReply [''SET'', ''k'', ''v'']))
       = Some (Some (MultiBulkReply [''SET'', ''k'', ''v'']), None)"
  using parse_serialize_roundtrip [of "MultiBulkReply [''SET'', ''k'', ''v'']"]
  by (simp add: plainPayload_def)

text \<open>
  The claim as stated fails outside these replies. The empty bulk string is answered
  with a protocol error; so is a bulk string that starts with \<open>$\<close>; a status with an LF
  inside is cut at the LF; a multi-bulk array with an empty item comes back followed by
  a second reply, read from the CRLF of the empty payload.
\<close>

theorem roundtrip_fails_outside_wireSafe:
  "ParseBytes (ToBytes (BulkReply [])) = Some ([], Some (New (''protocol error: $0'' @ [CR, LF])))
   \<and> ParseBytes (ToBytes (BulkReply ''$a''))
       = Some ([], Some (New (''protocol error: $a'' @ [CR, LF])))
   \<and> ParseBytes (ToBytes (StatusReply [CHR ''a'', LF, CHR ''b'']))
       = Some ([], Some (New (''protocol error: +a'' @ [LF])))
   \<and> ParseBytes (ToBytes (MultiBulkReply [[]]))
       = Some ([Some (MultiBulkReply [[]]), Some (MultiBulkReply [[]])], None)"
  by (simp add: ParseBytes_def parse_eval bulkBytes_def FormatInt_def FormatUint.simps
      digitChar_def)

section \<open>The keyspace commands\<close>

lemma expire_family_tail:
  assumes "f = execExpire \<or> f = execExpireAt \<or> f = execPExpire \<or> f = execPExpireAt"
    and "ParseInt arg 64 = (n, None)"
  shows "\<exists>t. f now db (key # arg # more_args) = Some (setExpire now db key t)"
  using assms by (auto simp: setExpire_def Let_def split: prod.splits option.splits)

lemma expire_family_error:
  assumes "f = execExpire \<or> f = execExpireAt \<or> f = execPExpire \<or> f = execPExpireAt"
    and "ParseInt arg 64 = (n, Some e)"
  shows "f now db (key # arg # more_args)
           = Some (StandardErrReply ''ERR value is not an integer or out of range'', db)"
  using assms by auto

lemma GetEntity_present:
  "GetEntity now db key = (Some entity, db1) \<Longrightarrow>
     db1 = db \<and> map_of (data db) key = Some entity \<and> \<not> IsExpired now db key"
  by (auto simp: GetEntity_def split: if_splits)

text \<open>
  C9 (RENAMENX no-action frame). When \<open>dst\<close> is present, that is when the keyspace's
  \<open>get\<close> reports it, \<open>RENAMENX src dst\<close> replies the integer 0 and returns the database
  it was given: every key keeps its entity and its TTL, and nothing is appended to the
  AOF.
\<close>

theorem execRenameNx_dst_present:
  assumes "fst (GetEntity now db dst) = Some entity"
  shows "execRenameNx now db (src # dst # more_args) = Some (IntReply 0, db)"
proof -
  obtain db1 where g: "GetEntity now db dst = (Some entity, db1)"
    using assms by (cases "GetEntity now db dst") auto
  then have "db1 = db" by (simp add: GetEntity_present)
  with g show ?thesis by simp
qed

theorem execRenameNx_dst_present_witness:
  "fst (GetEntity 5
          \<lparr>data = [(''a'', BytesData ''1''), (''b'', BytesData ''2'')],
             ttlMap = [(''a'', 100)], aof = []\<rparr> ''b'') = Some (BytesData ''2'')
   \<and> execRenameNx 5
        \<lparr>data = [(''a'', BytesData ''1''), (''b'', BytesData ''2'')],
           ttlMap = [(''a'', 100)], aof = []\<rparr> [''a'', ''b'']
       = Some (IntReply 0,
               \<lparr>data = [(''a'', BytesData ''1''), (''b'', BytesData ''2'')],
                  ttlMap = [(''a'', 100)], aof = []\<rparr>)"
  using execRenameNx_dst_present
    [of 5 "\<lparr>data = [(''a'', BytesData ''1''), (''b'', BytesData ''2'')],
              ttlMap = [(''a'', 100)], aof = []\<rparr>" "''b''" "BytesData ''2''" "''a''" "[]"]
  by (simp add: GetEntity_def IsExpired_def)

text \<open>
  C3 (RENAME semantics). The claim includes \<open>dst = src\<close>: the key should still hold its
  entity after \<open>RENAME a a\<close>. On the code \<open>execRename\<close> puts the entity under \<open>dest\<close> and
  then removes \<open>src\<close>; when the two are the same key the entity is gone, and the reply
  is still \<open>+OK\<close>.
\<close>

theorem execRename_same_key_deletes:
  "execRename 0 \<lparr>data = [(''a'', BytesData ''1'')], ttlMap = [], aof = []\<rparr> [''a'', ''a'']
     = (OkReply, \<lparr>data = [], ttlMap = [], aof = [[''rename'', ''a'', ''a'']]\<rparr>)"
  by (simp add: execRename_def db_eval)

text \<open>
  With two different keys \<open>execRename\<close> does what the claim says: the entity moves to
  \<open>dst\<close>, \<open>src\<close> is gone with its TTL, and the TTL of \<open>src\<close>, if it had one, is the TTL
  of \<open>dst\<close> (without one, \<open>dst\<close> keeps the TTL it had). An absent \<open>src\<close> is answered with
  \<open>no such key\<close>.
\<close>

lemma execRename_absent:
  "fst (GetEntity now db src) = None \<Longrightarrow>
     execRename now db [src, dst] = (StandardErrReply ''no such key'', snd (GetEntity now db src))"
  by (cases "GetEntity now db src") (simp add: execRename_def)

lemma execRename_other_key:
  assumes "src \<noteq> dst" and "fst (GetEntity now db src) = Some entity"
  shows "\<exists>db'. execRename now db [src, dst] = (OkReply, db')
           \<and> map_of (data db') dst = Some entity
           \<and> map_of (data db') src = None
           \<and> map_of (ttlMap db') src = None
           \<and> map_of (ttlMap db') dst
                = (case map_of (ttlMap db) src of
                     Some t \<Rightarrow> Some t
                   | None \<Rightarrow> map_of (ttlMap db) dst)
           \<and> aof db' = aof db @ [[''rename'', src, dst]]"
proof -
  obtain db1 where g: "GetEntity now db src = (Some entity, db1)"
    using assms(2) by (cases "GetEntity now db src") auto
  then have "db1 = db" by (simp add: GetEntity_present)
  with g assms(1) show ?thesis
    by (auto simp: execRename_def PutEntity_def Remove_def Persist_def Expire_def addAof_def
        ToCmdLine3_def update_conv' delete_conv' Let_def split: option.splits)
qed

text \<open>
  C4 (no orphan TTL). The claim: every command keeps each key of the TTL mapping in the
  keyspace, also \<open>RENAME src dst\<close> with \<open>src = dst\<close>. On the code \<open>RENAME a a\<close> on a key
  with a TTL removes the key and then sets the saved TTL on it again: the invariant
  holds before and fails after.
\<close>

theorem execRename_same_key_orphan_ttl:
  "noOrphanTTL \<lparr>data = [(''a'', BytesData ''1'')], ttlMap = [(''a'', 100)], aof = []\<rparr>
   \<and> execRename 5 \<lparr>data = [(''a'', BytesData ''1'')], ttlMap = [(''a'', 100)], aof = []\<rparr>
         [''a'', ''a'']
       = (OkReply, \<lparr>data = [], ttlMap = [(''a'', 100)], aof = [[''rename'', ''a'', ''a'']]\<rparr>)
   \<and> \<not> noOrphanTTL \<lparr>data = [], ttlMap = [(''a'', 100)], aof = [[''rename'', ''a'', ''a'']]\<rparr>"
  by (simp add: execRename_def db_eval noOrphanTTL_def)

text \<open>
  Every other write executor keeps the invariant, and so does \<open>execRename\<close> when its two
  keys differ.
\<close>

lemma keys_update: "fst ` set (AList.update k v al) = insert k (fst ` set al)"
  using dom_update [of k v al] by simp

lemma keys_delete: "fst ` set (AList.delete k al) = fst ` set al - {k}"
proof -
  have "set (map fst (AList.delete k al)) = set (map fst al) - {k}"
    by (simp add: delete_keys)
  then show ?thesis by simp
qed

lemma map_of_delete_same: "map_of (AList.delete k al) k = None"
  by (simp add: delete_conv')

lemma noOrphanTTL_Remove: "noOrphanTTL db \<Longrightarrow> noOrphanTTL (Remove db key)"
  by (auto simp: noOrphanTTL_def Remove_def keys_delete)

lemma noOrphanTTL_GetEntity: "noOrphanTTL db \<Longrightarrow> noOrphanTTL (snd (GetEntity now db key))"
  by (simp add: GetEntity_def noOrphanTTL_Remove)

lemma noOrphanTTL_Removes: "noOrphanTTL db \<Longrightarrow> noOrphanTTL (snd (Removes db keys))"
proof (induction keys arbitrary: db)
  case Nil
  then show ?case by simp
next
  case (Cons key keys)
  from Cons.IH [of "Remove db key"] Cons.IH [of db] Cons.prems show ?case
    by (auto simp: noOrphanTTL_Remove split: prod.splits)
qed

lemma noOrphanTTL_aof: "noOrphanTTL (addAof db line) = noOrphanTTL db"
  by (simp add: noOrphanTTL_def addAof_def)

lemma noOrphanTTL_Persist: "noOrphanTTL db \<Longrightarrow> noOrphanTTL (Persist db key)"
  by (auto simp: noOrphanTTL_def Persist_def keys_delete)

lemma noOrphanTTL_PutEntity: "noOrphanTTL db \<Longrightarrow> noOrphanTTL (PutEntity db key entity)"
  by (auto simp: noOrphanTTL_def PutEntity_def keys_update)

lemma noOrphanTTL_Expire:
  "noOrphanTTL db \<Longrightarrow> key \<in> set (map fst (data db)) \<Longrightarrow> noOrphanTTL (Expire db key t)"
  by (auto simp: noOrphanTTL_def Expire_def keys_update)

lemma map_of_key: "map_of al k = Some v \<Longrightarrow> k \<in> fst ` set al"
  by (metis map_of_eq_None_iff option.distinct(1))

lemma noOrphanTTL_execDel: "noOrphanTTL db \<Longrightarrow> noOrphanTTL (snd (execDel db argv))"
  using noOrphanTTL_Removes [of db argv]
  by (auto simp: execDel_def noOrphanTTL_aof split: prod.splits)

lemma noOrphanTTL_execFlushDB: "noOrphanTTL (snd (execFlushDB db argv))"
  by (simp add: execFlushDB_def noOrphanTTL_def addAof_def Flush_def)

lemma noOrphanTTL_setExpire:
  assumes "noOrphanTTL db"
  shows "noOrphanTTL (snd (setExpire now db key t))"
proof (cases "GetEntity now db key")
  case (Pair r db1)
  with assms noOrphanTTL_GetEntity [of db now key] have i: "noOrphanTTL db1" by simp
  show ?thesis
  proof (cases r)
    case None
    with Pair i show ?thesis by (simp add: setExpire_def)
  next
    case (Some entity)
    with Pair have "map_of (data db1) key = Some entity"
      by (auto dest: GetEntity_present)
    then have "key \<in> set (map fst (data db1))"
      by (auto dest: map_of_key)
    with Pair Some i show ?thesis
      by (simp add: setExpire_def noOrphanTTL_aof noOrphanTTL_Expire)
  qed
qed

lemma noOrphanTTL_execPersist:
  assumes "noOrphanTTL db" and "execPersist now db argv = Some (reply, db')"
  shows "noOrphanTTL db'"
proof -
  from assms(2) obtain key more_args where a: "argv = key # more_args" by (cases argv) auto
  from assms(1) have "noOrphanTTL (snd (GetEntity now db key))" by (rule noOrphanTTL_GetEntity)
  with assms(2) a show ?thesis
    by (auto simp: noOrphanTTL_aof noOrphanTTL_Persist split: prod.splits option.splits)
qed

lemma noOrphanTTL_expire_family:
  assumes "noOrphanTTL db"
    and "f = execExpire \<or> f = execExpireAt \<or> f = execPExpire \<or> f = execPExpireAt"
    and "f now db argv = Some (reply, db')"
  shows "noOrphanTTL db'"
proof -
  from assms(2,3) obtain key arg more_args where a: "argv = key # arg # more_args"
    by (cases argv; cases "tl argv") auto
  obtain n e where p: "ParseInt arg 64 = (n, e)" by (cases "ParseInt arg 64") auto
  show ?thesis
  proof (cases e)
    case None
    with expire_family_tail [OF assms(2), of arg n now db key more_args] p
    obtain t where "f now db argv = Some (setExpire now db key t)" using a by auto
    with assms(3) have "db' = snd (setExpire now db key t)" by simp
    with assms(1) show ?thesis by (simp add: noOrphanTTL_setExpire)
  next
    case (Some err)
    with expire_family_error [OF assms(2), of arg n err now db key more_args] p a assms(1,3)
    show ?thesis by simp
  qed
qed

lemma noOrphanTTL_execRenameNx:
  assumes "noOrphanTTL db" and "execRenameNx now db argv = Some (reply, db')"
  shows "noOrphanTTL db'"
proof -
  from assms(2) obtain src dest more_args where a: "argv = src # dest # more_args"
    by (cases argv; cases "tl argv") auto
  obtain r1 db1 where g1: "GetEntity now db dest = (r1, db1)" by (cases "GetEntity now db dest") auto
  obtain r2 db2 where g2: "GetEntity now db1 src = (r2, db2)" by (cases "GetEntity now db1 src") auto
  have i1: "noOrphanTTL db1" using noOrphanTTL_GetEntity [OF assms(1), of now dest] g1 by simp
  have i2: "noOrphanTTL db2" using noOrphanTTL_GetEntity [OF i1, of now src] g2 by simp
  define db3 where "db3 = snd (Removes db2 [src, dest])"
  have i3: "noOrphanTTL db3" unfolding db3_def using i2 by (rule noOrphanTTL_Removes)
  show ?thesis
  proof (cases r1)
    case (Some found)
    with assms(2) a g1 i1 show ?thesis by simp
  next
    case None
    note r1 = None
    show ?thesis
    proof (cases r2)
      case None
      with assms(2) a g1 g2 r1 i2 show ?thesis by simp
    next
      case (Some entity)
      have i4: "noOrphanTTL (PutEntity db3 dest entity)" using i3 by (rule noOrphanTTL_PutEntity)
      have k: "dest \<in> set (map fst (data (Persist (Persist (PutEntity db3 dest entity) src) dest)))"
        by (simp add: Persist_def PutEntity_def keys_update)
      have i5: "\<And>t. noOrphanTTL (Expire (Persist (Persist (PutEntity db3 dest entity) src) dest) dest t)"
        by (intro noOrphanTTL_Expire noOrphanTTL_Persist i4 k)
      from assms(2) a g1 g2 r1 Some i4 i5 show ?thesis
        by (auto simp: noOrphanTTL_aof Let_def db3_def simp del: Removes.simps split: option.splits)
    qed
  qed
qed

lemma noOrphanTTL_execRename:
  assumes "noOrphanTTL db" and "\<And>key. argv \<noteq> [key, key]"
  shows "noOrphanTTL (snd (execRename now db argv))"
proof (cases "\<exists>src dest. argv = [src, dest]")
  case False
  then have "execRename now db argv
      = (StandardErrReply ''ERR wrong number of arguments for 'rename' command'', db)"
    by (auto simp: execRename_def split: list.splits)
  with assms(1) show ?thesis by simp
next
  case True
  then obtain src dest where a: "argv = [src, dest]" by auto
  with assms(2) have ne: "src \<noteq> dest" by auto
  obtain r db1 where g: "GetEntity now db src = (r, db1)" by (cases "GetEntity now db src") auto
  have i1: "noOrphanTTL db1" using noOrphanTTL_GetEntity [OF assms(1), of now src] g by simp
  show ?thesis
  proof (cases r)
    case None
    with a g i1 show ?thesis by (simp add: execRename_def)
  next
    case (Some entity)
    define db3 where "db3 = Remove (PutEntity db1 dest entity) src"
    have i3: "noOrphanTTL db3"
      unfolding db3_def by (intro noOrphanTTL_Remove noOrphanTTL_PutEntity i1)
    have k: "dest \<in> set (map fst (data (Persist (Persist db3 src) dest)))"
      using ne by (simp add: db3_def Persist_def PutEntity_def Remove_def keys_update keys_delete)
    have i5: "\<And>t. noOrphanTTL (Expire (Persist (Persist db3 src) dest) dest t)"
      by (intro noOrphanTTL_Expire noOrphanTTL_Persist i3 k)
    from a g Some i3 i5 show ?thesis
      by (auto simp: execRename_def noOrphanTTL_aof Let_def db3_def split: option.splits)
  qed
qed

lemma noOrphanTTL_preserved:
  assumes "(name, exec) \<in> set writeExecutors" and "exec now db argv = Some (reply, db')"
    and "noOrphanTTL db" and "name = ''rename'' \<Longrightarrow> (\<And>key. argv \<noteq> [key, key])"
  shows "noOrphanTTL db'"
proof -
  from assms(1) consider
      "exec = (\<lambda>now db argv. Some (execDel db argv))"
    | "exec = (\<lambda>now db argv. Some (execFlushDB db argv))"
    | "name = ''rename''" "exec = (\<lambda>now db argv. Some (execRename now db argv))"
    | "exec = execRenameNx"
    | "exec = execExpire \<or> exec = execExpireAt \<or> exec = execPExpire \<or> exec = execPExpireAt"
    | "exec = execPersist"
    by (auto simp: writeExecutors_def)
  then show ?thesis
  proof cases
    case 1 with assms(2,3) noOrphanTTL_execDel [of db argv] show ?thesis by auto
  next
    case 2 with assms(2) noOrphanTTL_execFlushDB [of db argv] show ?thesis by auto
  next
    case 3
    with assms(4) have "\<And>key. argv \<noteq> [key, key]" by simp
    with assms(3) have "noOrphanTTL (snd (execRename now db argv))" by (rule noOrphanTTL_execRename)
    with 3 assms(2) show ?thesis by auto
  next
    case 4 with assms(2,3) show ?thesis by (auto intro: noOrphanTTL_execRenameNx)
  next
    case 5 from assms(3) this assms(2) show ?thesis by (rule noOrphanTTL_expire_family)
  next
    case 6 with assms(2,3) show ?thesis by (auto intro: noOrphanTTL_execPersist)
  qed
qed

text \<open>
  C7 (EXPIRE). The claim: when the argument parses and the key is present, the key's
  expiration is set to \<open>now\<close> plus that many seconds. On the code the seconds are turned
  into a \<open>time.Duration\<close> by an \<open>int64\<close> multiplication with \<open>10^9\<close>, which wraps: the
  argument \<open>9223372037\<close> parses, and the expiration is set some 292 years before \<open>now\<close>.
\<close>

theorem execExpire_overflow:
  "execExpire 0 \<lparr>data = [(''k'', BytesData ''v'')], ttlMap = [], aof = []\<rparr>
       [''k'', ''9223372037'']
     = Some (IntReply 1,
             \<lparr>data = [(''k'', BytesData ''v'')], ttlMap = [(''k'', - 9223372036709551616)],
                aof = [[''PEXPIREAT'', ''k'', ''-9223372036709'']]\<rparr>)"
  by (simp add: db_eval ParseInt_def ParseUint_def isDigit_def digitVal_def wrap64_def
      MakeExpireCmd_def FormatInt_def FormatUint.simps digitChar_def)

text \<open>
  Within the range in which the multiplication does not wrap (up to 9223372036 seconds
  either way) \<open>execExpire\<close> does what the claim says, and its two other cases hold for
  every argument.
\<close>

lemma wrap64_in_range: "- (2 ^ 63) \<le> x \<Longrightarrow> x < 2 ^ 63 \<Longrightarrow> wrap64 x = x"
  by (simp add: wrap64_def)

lemma execExpire_not_integer:
  "snd (ParseInt arg 64) \<noteq> None \<Longrightarrow>
     execExpire now db (key # arg # more_args)
       = Some (StandardErrReply ''ERR value is not an integer or out of range'', db)"
  by (cases "ParseInt arg 64") auto

lemma execExpire_absent:
  assumes "snd (ParseInt arg 64) = None" and "fst (GetEntity now db key) = None"
  shows "execExpire now db (key # arg # more_args) = Some (IntReply 0, snd (GetEntity now db key))"
  using assms
  by (cases "ParseInt arg 64"; cases "GetEntity now db key") (simp add: Let_def)

lemma execExpire_in_range:
  assumes "ParseInt arg 64 = (s, None)" and "- 9223372036 \<le> s" and "s \<le> 9223372036"
    and "fst (GetEntity now db key) = Some entity"
  shows "\<exists>db'. execExpire now db (key # arg # more_args) = Some (IntReply 1, db')
           \<and> map_of (ttlMap db') key = Some (now + s * 1000000000)
           \<and> data db' = data db"
proof -
  from assms(2,3) have "wrap64 (s * 1000000000) = s * 1000000000"
    by (intro wrap64_in_range) simp_all
  moreover obtain db1 where "GetEntity now db key = (Some entity, db1)" "db1 = db"
    using assms(4) GetEntity_present by (cases "GetEntity now db key") auto
  ultimately show ?thesis
    using assms(1)
    by (simp add: Let_def addAof_def Expire_def update_conv')
qed

text \<open>
  C5 (KEYS and lazy expiration). The claim: the array replied by \<open>KEYS\<close> holds no key
  whose TTL is not after \<open>now\<close>. On the code \<open>execKeys\<close> walks \<open>db.data\<close> directly and
  never consults the TTL mapping or the clock: a key that is in the keyspace, expired and
  matched by the pattern is listed, while \<open>EXISTS\<close>, which reads through \<open>GetEntity\<close>,
  counts it as absent.
\<close>

theorem execKeys_lists_expired_key:
  assumes "map_of (data db) key = Some entity"
    and "map_of (ttlMap db) key = Some t" and "t \<le> now"
    and "IsMatch pattern key"
  shows "fst (execExists now db [key]) = IntReply 0
         \<and> (\<exists>keys. map_option fst (execKeys IsMatch db (pattern # more_args))
                      = Some (MultiBulkReply keys) \<and> key \<in> set keys)"
proof -
  from assms(2,3) have "GetEntity now db key = (None, Remove db key)"
    by (simp add: GetEntity_def IsExpired_def)
  then have e: "fst (execExists now db [key]) = IntReply 0"
    by (simp add: execExists_def)
  from assms(1) have "(key, entity) \<in> set (data db)" by (rule map_of_SomeD)
  with assms(4) have "key \<in> set (map fst (filter (\<lambda>(key, val). IsMatch pattern key) (data db)))"
    by force
  with e show ?thesis by simp
qed

theorem execKeys_lists_expired_key_witness:
  "map_of (data \<lparr>data = [(''k'', BytesData ''v'')], ttlMap = [(''k'', 10)], aof = []\<rparr>) ''k''
     = Some (BytesData ''v'')
   \<and> map_of (ttlMap \<lparr>data = [(''k'', BytesData ''v'')], ttlMap = [(''k'', 10)], aof = []\<rparr>) ''k''
     = Some 10
   \<and> (10 :: int) \<le> 20
   \<and> fst (execExists 20 \<lparr>data = [(''k'', BytesData ''v'')], ttlMap = [(''k'', 10)], aof = []\<rparr>
            [''k'']) = IntReply 0
   \<and> map_option fst
        (execKeys (\<lambda>pattern key. pattern = ''*'')
           \<lparr>data = [(''k'', BytesData ''v'')], ttlMap = [(''k'', 10)], aof = []\<rparr> [''*''])
       = Some (MultiBulkReply [''k''])"
  using execKeys_lists_expired_key
    [of "\<lparr>data = [(''k'', BytesData ''v'')], ttlMap = [(''k'', 10)], aof = []\<rparr>" "''k''"
        "BytesData ''v''" 10 20 "\<lambda>pattern key. pattern = ''*''" "''*''" "[]"]
  by (simp add: execExists_def db_eval)

section \<open>The AOF sink\<close>














end
